theory Spec2Isabelle
  imports Complex_Main "HOL-Library.Sublist"
begin

section \<open>Data model\<close>

text \<open>
  A GPS reading is a row of the data frame built from the GPS source: two
  coordinates in degrees and an integer timestamp (epoch milliseconds). Coordinates,
  proportions and distances are IEEE doubles in the program; they are modelled
  as reals, so every statement below is about exact arithmetic.
\<close>

record geo =
  latitude :: real
  longitude :: real

record reading = geo +
  timestamp :: int

text \<open>A row of a frame that also carries the \<open>cluster\<close> column.\<close>

record labelled = reading +
  cluster :: int

text \<open>
  A location record, the dictionary both extractors build per centroid. The keys
  \<open>'start'\<close> and \<open>'end'\<close> are the fields \<open>window_start\<close> and \<open>window_end\<close>; \<open>radius\<close>
  is \<open>None\<close> where the dictionary holds Python's \<open>None\<close>.
\<close>

record location = geo +
  window_start :: int
  window_end :: int
  rank :: int
  radius :: "real option"
  proportion :: real
  duration :: int

text \<open>
  The exceptions the modelled code can raise: \<open>KeyError\<close> and \<open>UnboundLocalError\<close>
  from the code itself, \<open>ServiceFailure\<close> for whatever the attachment store or the
  GPS source raises.
\<close>

datatype exn =
    KeyError
  | UnboundLocalError
  | ServiceFailure

section \<open>The dwell-duration estimator\<close>

text \<open>
  \<open>np.r_[False, df['cluster'] == cluster, False]\<close>: the membership column with a
  \<open>False\<close> sentinel at both ends.
\<close>

definition arr_ext :: "labelled list \<Rightarrow> int \<Rightarrow> bool list" where
  "arr_ext df c = False # map (\<lambda>r. cluster r = c) df @ [False]"

text \<open>\<open>a[:-1] != a[1:]\<close>, elementwise.\<close>

definition neq_shift :: "bool list \<Rightarrow> bool list" where
  "neq_shift a = map2 (\<lambda>x y. x \<noteq> y) (butlast a) (tl a)"

text \<open>\<open>np.flatnonzero\<close>: the positions holding \<open>True\<close>, ascending.\<close>

definition flatnonzero :: "bool list \<Rightarrow> int list" where
  "flatnonzero bs = map int (filter (\<lambda>i. bs ! i) [0..<length bs])"

text \<open>The slice \<open>xs[::2]\<close>: every second element, starting with the first.\<close>

fun stride2 :: "'a list \<Rightarrow> 'a list" where
  "stride2 [] = []"
| "stride2 [x] = [x]"
| "stride2 (x # y # xs) = x # stride2 xs"

text \<open>
  \<open>list(zip(idx[:-1:2], idx[1::2] - int(True)))\<close>: \<open>idx[:-1:2]\<close> is \<open>idx[:-1][::2]\<close>
  and \<open>idx[1::2]\<close> is \<open>idx[1:][::2]\<close>.
\<close>

definition idx_list :: "int list \<Rightarrow> (int \<times> int) list" where
  "idx_list idx = zip (stride2 (butlast idx)) (map (\<lambda>i. i - 1) (stride2 (tl idx)))"

text \<open>
  \<open>df['timestamp'][k]\<close> on the frame after \<open>reset_index()\<close>: a label lookup in a
  range index, which raises \<open>KeyError\<close> outside \<open>0 .. len - 1\<close> (a negative label
  does not count from the end).
\<close>

definition series_get :: "int list \<Rightarrow> int \<Rightarrow> exn + int" where
  "series_get ts k = (if 0 \<le> k \<and> k < int (length ts) then Inr (ts ! nat k) else Inl KeyError)"

text \<open>The loop filling \<open>hometime_list\<close>; spans of zero width are skipped.\<close>

fun hometime_list :: "int list \<Rightarrow> (int \<times> int) list \<Rightarrow> exn + int list" where
  "hometime_list ts [] = Inr []"
| "hometime_list ts (tup # tups) =
     (if fst tup = snd tup then hometime_list ts tups
      else case series_get ts (snd tup) of
             Inl e \<Rightarrow> Inl e
           | Inr t1 \<Rightarrow>
               (case series_get ts (fst tup) of
                  Inl e \<Rightarrow> Inl e
                | Inr t0 \<Rightarrow>
                    (case hometime_list ts tups of
                       Inl e \<Rightarrow> Inl e
                     | Inr ds \<Rightarrow> Inr ((t1 - t0) # ds))))"

text \<open>
  \<open>_location_duration(df, cluster)\<close>. The frame is reversed first
  (\<open>df[::-1].reset_index()\<close>), so position \<open>0\<close> is the last row of the input.
\<close>

definition location_duration :: "labelled list \<Rightarrow> int \<Rightarrow> exn + int" where
  "location_duration df c =
     (let df' = rev df;
          idx = flatnonzero (neq_shift (arr_ext df' c))
      in case hometime_list (map timestamp df') (idx_list idx) of
           Inl e \<Rightarrow> Inl e
         | Inr ds \<Rightarrow> Inr (sum_list ds))"


section \<open>Distances\<close>

text \<open>
  \<open>math.atan2(y, x)\<close>: the angle of the point \<open>(x, y)\<close>, in \<open>(-pi, pi]\<close>, and \<open>0\<close> at the
  origin.
\<close>

definition atan2 :: "real \<Rightarrow> real \<Rightarrow> real" where
  "atan2 y x =
     (if 0 < x then arctan (y / x)
      else if x < 0 then (if 0 \<le> y then arctan (y / x) + pi else arctan (y / x) - pi)
      else if 0 < y then pi / 2
      else if y < 0 then - (pi / 2)
      else 0)"

text \<open>
  \<open>distance(c1, c2)\<close>: the haversine distance in meters. Over the reals \<open>a\<close> lies
  between \<open>0\<close> and \<open>1\<close>, so neither square root is outside its domain.
\<close>

definition distance :: "real \<times> real \<Rightarrow> real \<times> real \<Rightarrow> real" where
  "distance c1 c2 =
     (let R = 6378.137;
          dLat = fst c2 * pi / 180 - fst c1 * pi / 180;
          dLon = snd c2 * pi / 180 - snd c1 * pi / 180;
          a1 = sin (dLat / 2) * sin (dLat / 2);
          a2 = cos (fst c1 * pi / 180) * cos (fst c2 * pi / 180);
          a3 = sin (dLon / 2) * sin (dLon / 2);
          a = a1 + (a2 * a3);
          c = 2 * atan2 (sqrt a) (sqrt (1 - a));
          d = R * c
      in d * 1000)"

text \<open>The pair \<open>(x['latitude'], x['longitude'])\<close>.\<close>

definition latlon :: "'a geo_scheme \<Rightarrow> real \<times> real" where
  "latlon g = (latitude g, longitude g)"

section \<open>The proximity merge\<close>

text \<open>
  The three assignments under \<open>if dist < MAX_DIST\<close>, in the source's order; the list
  holds mutable dictionaries, so each assignment is an update at one position.
\<close>

definition absorb :: "nat \<Rightarrow> nat \<Rightarrow> location list \<Rightarrow> location list" where
  "absorb i j cs =
     (let cs1 = cs[i := (cs ! i)\<lparr>proportion := proportion (cs ! i) + proportion (cs ! j)\<rparr>];
          cs2 = cs1[j := (cs1 ! j)\<lparr>proportion := 0\<rparr>]
      in cs2[i := (cs2 ! i)\<lparr>duration := duration (cs2 ! i) + duration (cs2 ! j)\<rparr>])"

text \<open>\<open>for j in range(i + 1, n)\<close>, with \<open>big_cluster_latlon\<close> read before the loop.\<close>

fun inner_loop :: "real \<Rightarrow> real \<times> real \<Rightarrow> nat \<Rightarrow> nat list \<Rightarrow> location list \<Rightarrow> location list" where
  "inner_loop max_dist big i [] cs = cs"
| "inner_loop max_dist big i (j # js) cs =
     inner_loop max_dist big i js
       (if distance big (latlon (cs ! j)) < max_dist then absorb i j cs else cs)"

text \<open>One pass of the outer loop body, for the index \<open>i\<close>.\<close>

definition scan :: "real \<Rightarrow> nat \<Rightarrow> location list \<Rightarrow> location list" where
  "scan max_dist i cs =
     (if 0 < proportion (cs ! i)
      then inner_loop max_dist (latlon (cs ! i)) i [Suc i..<length cs] cs
      else cs)"

fun outer_loop :: "real \<Rightarrow> nat list \<Rightarrow> location list \<Rightarrow> location list" where
  "outer_loop max_dist [] cs = cs"
| "outer_loop max_dist (i # is) cs = outer_loop max_dist is (scan max_dist i cs)"

text \<open>
  The list after \<open>for i in range(n - 1)\<close> has finished (\<open>range(-1)\<close> is empty, as
  \<open>[0..<0 - 1]\<close> is), and the list as it stands when the outer loop reaches index \<open>i\<close>.
\<close>

definition merged :: "real \<Rightarrow> location list \<Rightarrow> location list" where
  "merged max_dist cs = outer_loop max_dist [0..<length cs - 1] cs"

definition scanned :: "real \<Rightarrow> nat \<Rightarrow> location list \<Rightarrow> location list" where
  "scanned max_dist i cs = outer_loop max_dist [0..<i] cs"

text \<open>\<open>for i in range(len(clusters)): clusters[i]['rank'] = i\<close>.\<close>

definition rerank :: "location list \<Rightarrow> location list" where
  "rerank cs = map2 (\<lambda>i c. c\<lparr>rank := int i\<rparr>) [0..<length cs] cs"

definition remove_clusters :: "location list \<Rightarrow> real \<Rightarrow> location list" where
  "remove_clusters clusters max_dist =
     rerank (filter (\<lambda>cl. 0 < proportion cl) (merged max_dist clusters))"

text \<open>
  The fields of a location record that the merge never writes; they tell which input
  record an output record came from.
\<close>

definition origin :: "location \<Rightarrow> real \<times> real \<times> int \<times> int \<times> real option" where
  "origin c = (latitude c, longitude c, window_start c, window_end c, radius c)"

text \<open>The later positions whose location lies within the merge distance of position \<open>i\<close>.\<close>

definition nbrs :: "real \<Rightarrow> location list \<Rightarrow> nat \<Rightarrow> nat list" where
  "nbrs max_dist cs i =
     filter (\<lambda>j. distance (latlon (cs ! i)) (latlon (cs ! j)) < max_dist) [Suc i..<length cs]"

text \<open>
  Example inputs. \<open>place\<close> builds a location record for one day's window without a
  radius; the three lists put locations on the equator at longitudes \<open>0\<close>, \<open>90\<close> and
  \<open>180\<close> degrees, where the haversine distance is a multiple of \<open>pi\<close>.
\<close>

definition place :: "real \<Rightarrow> real \<Rightarrow> int \<Rightarrow> real \<Rightarrow> int \<Rightarrow> location" where
  "place lat lon r p d =
     \<lparr>latitude = lat, longitude = lon, window_start = 0, window_end = 86400000,
      rank = r, radius = None, proportion = p, duration = d\<rparr>"


definition late_pair :: "location list" where
  "late_pair = [place 0 0 0 (2/5) 100, place 0 180 1 (7/20) 50, place 0 180 2 (1/4) 10]"

definition triangle :: "location list" where
  "triangle = [place 0 0 0 (1/2) 100, place 0 180 1 (3/10) 50, place 0 90 2 (1/5) 7]"

section \<open>Persisted state and external services\<close>

text \<open>
  A summary point \<open>{'latitude', 'longitude', 'count'}\<close> and the attachment
  \<open>{'end', 'data'}\<close> kept under \<open>cortex.significant_locations.reduced\<close>; the key
  \<open>'end'\<close> is the field \<open>watermark\<close>.
\<close>

record summary_point = geo +
  count :: int

record reduction =
  watermark :: int
  data :: "summary_point list"

text \<open>The keyword arguments \<open>id\<close>, \<open>start\<close> and \<open>end\<close> of one invocation.\<close>

record kwargs =
  kw_id :: string
  kw_start :: int
  kw_end :: int

text \<open>
  What the code calls and does not define. A call of the attachment store or of the
  GPS source returns a value or raises; \<open>set_attachment\<close> gives the exception it
  raises, if any. The clustering library is deterministic here: \<open>dbscan eps X i\<close> is
  the label \<open>DBSCAN(eps).fit_predict(X)[i]\<close> of row \<open>i\<close> (one label per row),
  \<open>kmeans_score k X\<close> is \<open>KMeans(n_clusters=k).fit(X).score(X)\<close>, \<open>kmeans_centers k X\<close>
  is \<open>cluster_centers_\<close> of the \<open>k-means++\<close> fit with \<open>k\<close> clusters, and
  \<open>kmeans_predict cs x\<close> is the label \<open>predict\<close> gives the point \<open>x\<close> for the centers
  \<open>cs\<close>.
\<close>

record services =
  get_attachment :: "string \<Rightarrow> exn + reduction"
  set_attachment :: "string \<Rightarrow> reduction \<Rightarrow> exn option"
  gps :: "kwargs \<Rightarrow> exn + reading list"
  dbscan :: "real \<Rightarrow> (real \<times> real) list \<Rightarrow> nat \<Rightarrow> int"
  kmeans_score :: "nat \<Rightarrow> (real \<times> real) list \<Rightarrow> real"
  kmeans_centers :: "nat \<Rightarrow> (real \<times> real) list \<Rightarrow> (real \<times> real) list"
  kmeans_predict :: "(real \<times> real) list \<Rightarrow> real \<times> real \<Rightarrow> int"

section \<open>The planar distance\<close>

text \<open>
  \<open>euclid(g0, g1)\<close>, in kilometers: \<open>_euclid(lat, lng, lat0, lng0)\<close> takes \<open>lat, lng\<close>
  from \<open>g0\<close> and \<open>lat0, lng0\<close> from \<open>g1\<close>, and applies the cosine to \<open>lat0\<close> as it is.
\<close>

definition euclid :: "real \<times> real \<Rightarrow> real \<times> real \<Rightarrow> real" where
  "euclid g0 g1 =
     110.25 * sqrt ((fst g0 - fst g1)\<^sup>2 + ((snd g0 - snd g1) * cos (fst g1))\<^sup>2)"

text \<open>
  \<open>np.mean\<close> of a list of numbers. The code takes it of the members of a cluster
  or of the rows assigned to a location, which are not empty where it is reached.
\<close>

definition mean :: "real list \<Rightarrow> real" where
  "mean xs = sum_list xs / real (length xs)"

text \<open>
  \<open>np.argmin\<close>: the first position of the least element. It is only called on a
  list that is not empty.
\<close>

fun argmin_from :: "nat \<Rightarrow> real \<Rightarrow> nat \<Rightarrow> real list \<Rightarrow> nat" where
  "argmin_from best v i [] = best"
| "argmin_from best v i (x # xs) =
     (if x < v then argmin_from i x (Suc i) xs else argmin_from best v (Suc i) xs)"

definition argmin :: "real list \<Rightarrow> nat" where
  "argmin xs = (case xs of [] \<Rightarrow> 0 | x # xs' \<Rightarrow> argmin_from 0 x 1 xs')"

section \<open>The incremental reducer\<close>

text \<open>
  \<open>df[df['timestamp'] != df['timestamp'].shift()]\<close>: a row is kept when its timestamp
  differs from that of the row before it; the first row is compared with \<open>NaN\<close> and
  kept.
\<close>

fun shift_ne :: "int option \<Rightarrow> reading list \<Rightarrow> reading list" where
  "shift_ne prev [] = []"
| "shift_ne prev (r # rs) =
     (if Some (timestamp r) \<noteq> prev then [r] else []) @ shift_ne (Some (timestamp r)) rs"

text \<open>
  The frame built from the rows the GPS source returned, with repeated timestamps
  dropped. \<open>pd.DataFrame.from_dict([])\<close> has no columns, so \<open>df['timestamp']\<close> raises
  \<open>KeyError\<close> when the source returned no row.
\<close>

definition dedup_frame :: "reading list \<Rightarrow> exn + reading list" where
  "dedup_frame rows = (if rows = [] then Inl KeyError else Inr (shift_ne None rows))"

text \<open>
  \<open>np.split(df, indices)\<close>: the pieces \<open>df[0:i1], df[i1:i2], ..., df[in:]\<close>, and the
  indices \<open>[30000*i for i in range(math.ceil(len(df) / 30000))]\<close>.
\<close>

definition np_split :: "'a list \<Rightarrow> nat list \<Rightarrow> 'a list list" where
  "np_split xs idxs =
     map (\<lambda>(a, b). take (b - a) (drop a xs)) (zip (0 # idxs) (idxs @ [length xs]))"

definition cut_indices :: "nat \<Rightarrow> nat list" where
  "cut_indices n = map (\<lambda>i. 30000 * i) [0..<(n + 29999) div 30000]"

definition cut_df :: "reading list \<Rightarrow> reading list list" where
  "cut_df df = np_split df (cut_indices (length df))"

text \<open>\<open>np.unique\<close>: the distinct labels, ascending.\<close>

definition unique :: "int list \<Rightarrow> int list" where
  "unique props = sort (remdups props)"

text \<open>
  The body of \<open>for l in np.unique(props)\<close>. The state is the list of summary points
  of \<open>reduced_data['data']\<close> and the list \<open>db_points\<close>. \<open>new_reduced_data\<close> is a shallow
  copy of \<open>reduced_data['data']\<close>: both lists hold the same dictionaries, so the
  increment of a \<open>count\<close> is an update of the one list of summary points.
\<close>

definition label_step ::
  "reading list \<Rightarrow> int list \<Rightarrow> summary_point list \<times> summary_point list \<Rightarrow> int
     \<Rightarrow> summary_point list \<times> summary_point list" where
  "label_step d props st l =
     (let dat = fst st; db_points = snd st;
          db_lats = map (\<lambda>i. latitude (d ! i)) (filter (\<lambda>i. props ! i = l) [0..<length d]);
          db_longs = map (\<lambda>i. longitude (d ! i)) (filter (\<lambda>i. props ! i = l) [0..<length d])
      in if l = - 1
         then (dat, db_points @ map (\<lambda>i. \<lparr>latitude = db_lats ! i, longitude = db_longs ! i,
                                            count = 1\<rparr>) [0..<length db_lats])
         else
           (let lat_mean = mean db_lats; long_mean = mean db_longs
            in if length dat = 0
               then (dat, db_points @ [\<lparr>latitude = lat_mean, longitude = long_mean,
                                         count = int (length db_lats)\<rparr>])
               else
                 (let min_dist_index =
                        argmin (map (\<lambda>loc. euclid (latlon loc) (lat_mean, long_mean)) dat)
                  in if euclid (latlon (dat ! min_dist_index)) (lat_mean, long_mean) < 20
                     then (dat[min_dist_index :=
                                 (dat ! min_dist_index)\<lparr>count :=
                                    count (dat ! min_dist_index) + int (length db_lats)\<rparr>],
                           db_points)
                     else (dat, db_points @ [\<lparr>latitude = lat_mean, longitude = long_mean,
                                               count = int (length db_lats)\<rparr>]))))"

fun labels_loop ::
  "reading list \<Rightarrow> int list \<Rightarrow> int list \<Rightarrow> summary_point list \<times> summary_point list
     \<Rightarrow> summary_point list \<times> summary_point list" where
  "labels_loop d props [] st = st"
| "labels_loop d props (l # ls) st = labels_loop d props ls (label_step d props st l)"

text \<open>One chunk that is not empty: cluster, fold the labels, append the new points.\<close>

definition chunk_step :: "services \<Rightarrow> real \<Rightarrow> int \<Rightarrow> reading list \<Rightarrow> reduction \<Rightarrow> reduction" where
  "chunk_step sv eps e d reduced_data =
     (let props = map (dbscan sv eps (map latlon d)) [0..<length d];
          st = labels_loop d props (unique props) (data reduced_data, [])
      in \<lparr>watermark = e, data = fst st @ snd st\<rparr>)"

fun chunks_loop :: "services \<Rightarrow> real \<Rightarrow> int \<Rightarrow> reading list list \<Rightarrow> reduction \<Rightarrow> reduction" where
  "chunks_loop sv eps e [] reduced_data = reduced_data"
| "chunks_loop sv eps e (d # ds) reduced_data =
     chunks_loop sv eps e ds
       (if length d = 0 then reduced_data else chunk_step sv eps e d reduced_data)"

section \<open>The density extractor\<close>

text \<open>Each summary point repeated \<open>count\<close> times (\<open>range\<close> of a negative count is empty).\<close>

definition expand :: "summary_point list \<Rightarrow> (real \<times> real) list" where
  "expand pts = concat (map (\<lambda>point. replicate (nat (count point)) (latlon point)) pts)"

text \<open>\<open>range(1, min(k_max, len(df)))\<close>.\<close>

definition K_clusters :: "int \<Rightarrow> nat \<Rightarrow> nat list" where
  "K_clusters k_max n = [1..<nat (min k_max (int n))]"

text \<open>
  The loop over \<open>score\<close> from position \<open>i\<close>: \<open>k = i + 1\<close> at the last position, or at the
  first position where \<open>abs(score[i + 1] - score[i] < .01)\<close> is truthy, that is where
  the comparison holds. \<open>None\<close>: the loop body never ran and \<open>k\<close> is unbound.
\<close>

fun elbow :: "nat \<Rightarrow> real list \<Rightarrow> nat option" where
  "elbow i [] = None"
| "elbow i [s] = Some (i + 1)"
| "elbow i (s # s' # rest) =
     (if s' - s < 0.01 then Some (i + 1) else elbow (Suc i) (s' # rest))"

text \<open>A row of \<open>newdf\<close> after \<open>newdf.loc[:, 'cluster'] = props\<close>.\<close>

definition with_cluster :: "reading \<Rightarrow> int \<Rightarrow> labelled" where
  "with_cluster r l =
     \<lparr>latitude = latitude r, longitude = longitude r, timestamp = timestamp r, cluster = l\<rparr>"

text \<open>\<open>props[props == idx].size\<close> and the rows of the coordinates where \<open>props == idx\<close>.\<close>

definition size_eq :: "int list \<Rightarrow> int \<Rightarrow> nat" where
  "size_eq props idx = length (filter (\<lambda>l. l = idx) props)"

definition rows_eq :: "int list \<Rightarrow> (real \<times> real) list \<Rightarrow> int \<Rightarrow> (real \<times> real) list" where
  "rows_eq props coords idx = map snd (filter (\<lambda>lp. fst lp = idx) (zip props coords))"

text \<open>
  The radius expression of the density extractor: the mean over the rows assigned to
  \<open>idx\<close> of \<open>euclid(center, row) * 1000\<close>, or \<open>None\<close> when no row is assigned.
\<close>

definition kmeans_radius :: "int list \<Rightarrow> (real \<times> real) list \<Rightarrow> int \<Rightarrow> real \<times> real \<Rightarrow> real option" where
  "kmeans_radius props coords idx center =
     (if size_eq props idx > 0
      then Some (mean (map (\<lambda>p. euclid center p * 1000) (rows_eq props coords idx)))
      else None)"

text \<open>The list comprehension over \<open>enumerate(kmeans.cluster_centers_)\<close>, from \<open>idx\<close> on.\<close>

fun kmeans_records ::
  "kwargs \<Rightarrow> labelled list \<Rightarrow> int list \<Rightarrow> (real \<times> real) list \<Rightarrow> nat \<Rightarrow> (real \<times> real) list
     \<Rightarrow> exn + location list" where
  "kmeans_records kw newdf props coords idx [] = Inr []"
| "kmeans_records kw newdf props coords idx (center # centers) =
     (let rad = kmeans_radius props coords (int idx) center;
          prop = real (size_eq props (int idx)) / real (length props)
      in case location_duration newdf (int idx) of
           Inl e \<Rightarrow> Inl e
         | Inr dur \<Rightarrow>
             (case kmeans_records kw newdf props coords (Suc idx) centers of
                Inl e \<Rightarrow> Inl e
              | Inr rest \<Rightarrow>
                  Inr (\<lparr>latitude = fst center, longitude = snd center,
                        window_start = kw_start kw, window_end = kw_end kw,
                        rank = int idx, radius = rad, proportion = prop,
                        duration = dur\<rparr> # rest)))"

text \<open>
  The code after the reduction. A frame built from an empty \<open>expanded_data\<close> has no
  columns, so \<open>df[['latitude', 'longitude']]\<close> raises \<open>KeyError\<close>; with a single
  expanded point no score is computed and reading \<open>k\<close> raises \<open>UnboundLocalError\<close>.
\<close>

definition extract_locations :: "services \<Rightarrow> int \<Rightarrow> kwargs \<Rightarrow> reduction \<Rightarrow> exn + location list" where
  "extract_locations sv k_max kw reduced_data =
     (let df2 = expand (data reduced_data)
      in if df2 = [] then Inl KeyError
         else
           (let score = map (\<lambda>i. kmeans_score sv i df2) (K_clusters k_max (length df2))
            in case elbow 0 score of
                 None \<Rightarrow> Inl UnboundLocalError
               | Some k \<Rightarrow>
                   (let centers = kmeans_centers sv k df2
                    in case gps sv kw of
                         Inl e \<Rightarrow> Inl e
                       | Inr rows \<Rightarrow>
                           if length rows = 0 then Inr []
                           else
                             (let newdf_coords = map latlon rows;
                                  props = map (kmeans_predict sv centers) newdf_coords;
                                  newdf = map2 with_cluster rows props
                              in kmeans_records kw newdf props newdf_coords 0 centers))))"

text \<open>
  The state the call works from: what \<open>get_attachment\<close> returned, or the default
  when it raised. The \<open>except\<close> clause is bare, so the default is taken whatever
  was raised.
\<close>

definition read_state :: "services \<Rightarrow> kwargs \<Rightarrow> reduction" where
  "read_state sv kw =
     (case get_attachment sv (kw_id kw) of
        Inl e \<Rightarrow> \<lparr>watermark = 0, data = []\<rparr>
      | Inr r \<Rightarrow> r)"

text \<open>
  \<open>_significant_locations_kmeans(k_max, eps, **kwargs)\<close>. The result pairs the
  bodies that \<open>set_attachment\<close> stored during the call with what the call returns or
  raises.
\<close>

definition significant_locations_kmeans ::
  "services \<Rightarrow> int \<Rightarrow> real \<Rightarrow> kwargs \<Rightarrow> reduction list \<times> (exn + location list)" where
  "significant_locations_kmeans sv k_max eps kw =
     (let reduced_data = read_state sv kw;
          reduced_data_end = watermark reduced_data
      in if reduced_data_end < kw_end kw
         then
           (case gps sv (kw\<lparr>kw_start := reduced_data_end\<rparr>) of
              Inl e \<Rightarrow> ([], Inl e)
            | Inr rows \<Rightarrow>
                (case dedup_frame rows of
                   Inl e \<Rightarrow> ([], Inl e)
                 | Inr df \<Rightarrow>
                     if length df = 0 then ([], Inr [])
                     else
                       (let reduced_data' =
                              chunks_loop sv eps (kw_end kw) (cut_df df) reduced_data
                        in case set_attachment sv (kw_id kw) reduced_data' of
                             Some e \<Rightarrow> ([], Inl e)
                           | None \<Rightarrow> ([reduced_data'], extract_locations sv k_max kw reduced_data'))))
         else ([], extract_locations sv k_max kw reduced_data))"

text \<open>
  Services for the examples: a store that answers \<open>att\<close> and accepts every write
  unless \<open>wr\<close> names an exception, a GPS source \<open>fetch\<close>, and a clustering library
  that puts every row into cluster \<open>0\<close>, scores every fit \<open>0\<close> and takes the first \<open>k\<close>
  points as the centers.
\<close>

definition lab_services ::
  "(exn + reduction) \<Rightarrow> exn option \<Rightarrow> (kwargs \<Rightarrow> exn + reading list) \<Rightarrow> services" where
  "lab_services att wr fetch =
     \<lparr>get_attachment = (\<lambda>_. att), set_attachment = (\<lambda>_ _. wr), gps = fetch,
      dbscan = (\<lambda>_ _ _. 0), kmeans_score = (\<lambda>_ _. 0),
      kmeans_centers = (\<lambda>k X. take k X), kmeans_predict = (\<lambda>_ _. 0)\<rparr>"

definition fix_at :: "real \<Rightarrow> real \<Rightarrow> int \<Rightarrow> reading" where
  "fix_at lat lon t = \<lparr>latitude = lat, longitude = lon, timestamp = t\<rparr>"

text \<open>One day's window for subject \<open>U1\<close>, and two fixes at the same place in it.\<close>

definition day :: kwargs where
  "day = \<lparr>kw_id = ''U1'', kw_start = 0, kw_end = 86400000\<rparr>"

definition home_fixes :: "reading list" where
  "home_fixes = [fix_at 0 0 0, fix_at 0 0 1000]"

text \<open>
  Five situations: the store cannot be read; the GPS source fails; the store cannot be
  written; the state is up to date; and a state whose watermark lies after every fix of
  the window, so that the reduction finds nothing new.
\<close>

definition store_down :: services where
  "store_down = lab_services (Inl ServiceFailure) None (\<lambda>_. Inr home_fixes)"




definition no_news :: services where
  "no_news =
     lab_services (Inr \<lparr>watermark = 50000000,
                         data = [\<lparr>latitude = 0, longitude = 0, count = 2\<rparr>]\<rparr>)
       None (\<lambda>k. if kw_start k = 0 then Inr home_fixes else Inr [])"


section \<open>The frequency extractor\<close>

text \<open>
  \<open>round(x, 3)\<close>: the nearest multiple of \<open>1/1000\<close>, a tie going to the even
  multiple.
\<close>

definition round3 :: "real \<Rightarrow> real" where
  "round3 x =
     (let y = x * 1000; f = \<lfloor>y\<rfloor>
      in real_of_int (if y - real_of_int f < 1/2 then f
                      else if 1/2 < y - real_of_int f then f + 1
                      else if even f then f else f + 1) / 1000)"

text \<open>A stable insertion sort for a given comparison.\<close>

fun insert_by :: "('a \<Rightarrow> 'a \<Rightarrow> bool) \<Rightarrow> 'a \<Rightarrow> 'a list \<Rightarrow> 'a list" where
  "insert_by le x [] = [x]"
| "insert_by le x (y # ys) = (if le x y then x # y # ys else y # insert_by le x ys)"

definition sort_by :: "('a \<Rightarrow> 'a \<Rightarrow> bool) \<Rightarrow> 'a list \<Rightarrow> 'a list" where
  "sort_by le xs = foldr (insert_by le) xs []"

text \<open>
  \<open>df[['latitude', 'longitude']].value_counts()\<close>: the distinct rows with the number
  of times each occurs, the most frequent first. Rows that occur equally often are
  taken in ascending order of (latitude, longitude), the order of the grouping; the
  library does not promise an order among them.
\<close>

definition value_counts :: "(real \<times> real) list \<Rightarrow> ((real \<times> real) \<times> nat) list" where
  "value_counts rows =
     sort_by (\<lambda>a b. snd b \<le> snd a)
       (map (\<lambda>key. (key, length (filter (\<lambda>r. r = key) rows)))
          (sort_by (\<lambda>a b. fst a < fst b \<or> (fst a = fst b \<and> snd a \<le> snd b)) (remdups rows)))"

text \<open>\<open>df_clusters.loc[(latitude == p[0]) & (longitude == p[1]), 'cluster'] = k\<close>.\<close>

definition assign :: "(real \<times> real) list \<Rightarrow> real \<times> real \<Rightarrow> nat \<Rightarrow> int list \<Rightarrow> int list" where
  "assign rounded p k labels = map2 (\<lambda>r l. if r = p then int k else l) rounded labels"

text \<open>
  \<open>for k in range(max_clusters)\<close>: the state is the \<open>cluster\<close> column and
  \<open>cluster_locs\<close>.
\<close>

fun take_clusters ::
  "(real \<times> real) list \<Rightarrow> (real \<times> real) list \<Rightarrow> nat list \<Rightarrow> int list \<times> (real \<times> real) list
     \<Rightarrow> int list \<times> (real \<times> real) list" where
  "take_clusters rounded top_points [] st = st"
| "take_clusters rounded top_points (k # ks) st =
     take_clusters rounded top_points ks
       (if k < length top_points
        then (assign rounded (top_points ! k) k (fst st), snd st @ [top_points ! k])
        else st)"

text \<open>
  The \<open>while\<close> loop of the size-threshold mode, from \<open>k\<close> on; \<open>rest\<close> is
  \<open>top_counts\<close> from position \<open>k\<close>, so the loop ends when \<open>rest\<close> is used up.
\<close>

fun while_clusters ::
  "(real \<times> real) list \<Rightarrow> int \<Rightarrow> nat \<Rightarrow> nat \<Rightarrow> ((real \<times> real) \<times> nat) list
     \<Rightarrow> int list \<times> (real \<times> real) list \<Rightarrow> int list \<times> (real \<times> real) list" where
  "while_clusters rounded min_cluster_points n k [] st = st"
| "while_clusters rounded min_cluster_points n k (bucket # rest) st =
     (if min_cluster_points < int (snd bucket) \<and> int k < int n - 1
      then while_clusters rounded min_cluster_points n (Suc k) rest
             (assign rounded (fst bucket) k (fst st), snd st @ [fst bucket])
      else st)"

text \<open>\<open>int(x)\<close> of a float: truncation towards zero.\<close>

definition py_int :: "real \<Rightarrow> int" where
  "py_int x = (if 0 \<le> x then \<lfloor>x\<rfloor> else \<lceil>x\<rceil>)"

text \<open>
  The radius expression of the frequency extractor. The mean runs over the rows of
  \<open>df\<close> labelled \<open>idx\<close>, with longitude first on both sides; the guard counts the rows
  of \<open>df_clusters\<close> whose label is not \<open>idx\<close>.
\<close>

definition mode_radius :: "reading list \<Rightarrow> int list \<Rightarrow> int \<Rightarrow> real \<times> real \<Rightarrow> real option" where
  "mode_radius df labels idx center =
     (if length (filter (\<lambda>l. l \<noteq> idx) labels) \<noteq> 0
      then Some (mean (map (\<lambda>p. euclid (snd center, fst center) (snd p, fst p) * 1000)
                         (rows_eq labels (map latlon df) idx)))
      else None)"

text \<open>The list comprehension over \<open>enumerate(cluster_locs)\<close>, from \<open>idx\<close> on.\<close>

fun mode_records ::
  "kwargs \<Rightarrow> reading list \<Rightarrow> labelled list \<Rightarrow> int list \<Rightarrow> nat \<Rightarrow> (real \<times> real) list
     \<Rightarrow> exn + location list" where
  "mode_records kw df df_clusters labels idx [] = Inr []"
| "mode_records kw df df_clusters labels idx (center # centers) =
     (let rad = mode_radius df labels (int idx) center;
          prop = real (size_eq labels (int idx))
                 / real (length (filter (\<lambda>l. l \<noteq> - 1) labels))
      in case location_duration df_clusters (int idx) of
           Inl e \<Rightarrow> Inl e
         | Inr dur \<Rightarrow>
             (case mode_records kw df df_clusters labels (Suc idx) centers of
                Inl e \<Rightarrow> Inl e
              | Inr rest \<Rightarrow>
                  Inr (\<lparr>latitude = fst center, longitude = snd center,
                        window_start = kw_start kw, window_end = kw_end kw,
                        rank = int idx, radius = rad, proportion = prop,
                        duration = dur\<rparr> # rest)))"

text \<open>\<open>_significant_locations_mode(max_clusters, min_cluster_size, MAX_DIST, **kwargs)\<close>.\<close>

definition significant_locations_mode ::
  "services \<Rightarrow> int \<Rightarrow> real \<Rightarrow> real \<Rightarrow> kwargs \<Rightarrow> exn + location list" where
  "significant_locations_mode sv max_clusters min_cluster_size max_dist kw =
     (case gps sv kw of
        Inl e \<Rightarrow> Inl e
      | Inr rows \<Rightarrow>
          if length rows = 0 then Inr []
          else
            (let df = shift_ne None rows;
                 rounded = map (\<lambda>r. (round3 (latitude r), round3 (longitude r))) df;
                 top_counts = value_counts rounded;
                 top_points = map fst top_counts;
                 min_cluster_points = py_int (min_cluster_size * real (length df));
                 start = (replicate (length df) (- 1), []);
                 st = (if max_clusters \<noteq> - 1
                       then take_clusters rounded top_points [0..<nat max_clusters] start
                       else while_clusters rounded min_cluster_points (length df) 0
                              top_counts start);
                 labels = fst st;
                 df_clusters =
                   map2 (\<lambda>r (p, l). \<lparr>latitude = fst p, longitude = snd p,
                                         timestamp = timestamp r, cluster = l\<rparr>)
                     df (zip rounded labels)
             in case mode_records kw df df_clusters labels 0 (snd st) of
                  Inl e \<Rightarrow> Inl e
                | Inr clusters \<Rightarrow> Inr (remove_clusters clusters max_dist)))"

text \<open>\<open>significant_locations\<close>: the choice of the extractor by \<open>method\<close>.\<close>

definition significant_locations ::
  "services \<Rightarrow> int \<Rightarrow> real \<Rightarrow> int \<Rightarrow> real \<Rightarrow> real \<Rightarrow> string \<Rightarrow> kwargs
     \<Rightarrow> reduction list \<times> (exn + location list)" where
  "significant_locations sv k_max eps max_clusters min_cluster_size max_dist method kw =
     (if method = ''k_means'' then significant_locations_kmeans sv k_max eps kw
      else ([], significant_locations_mode sv max_clusters min_cluster_size max_dist kw))"

section \<open>Properties of the dwell-duration estimator\<close>
















section \<open>Properties of the proximity merge\<close>

subsection \<open>One absorption and the inner loop\<close>

lemma length_absorb [simp]: "length (absorb i j cs) = length cs"
  by (simp add: absorb_def Let_def)

lemma absorb_nth:
  assumes "i \<noteq> j" "i < length cs" "j < length cs" "m < length cs"
  shows "absorb i j cs ! m =
     (if m = i then (cs ! i)\<lparr>proportion := proportion (cs ! i) + proportion (cs ! j),
                              duration := duration (cs ! i) + duration (cs ! j)\<rparr>
      else if m = j then (cs ! j)\<lparr>proportion := 0\<rparr>
      else cs ! m)"
  using assms by (simp add: absorb_def Let_def nth_list_update)

lemma latlon_absorb:
  assumes "i \<noteq> j" "i < length cs" "j < length cs" "m < length cs"
  shows "latlon (absorb i j cs ! m) = latlon (cs ! m)"
  using assms by (simp add: absorb_nth latlon_def)

lemma origin_absorb:
  assumes "i \<noteq> j" "i < length cs" "j < length cs"
  shows "map origin (absorb i j cs) = map origin cs"
  using assms by (intro nth_equalityI) (simp_all add: absorb_nth origin_def)

lemma length_inner_loop [simp]: "length (inner_loop D big i js cs) = length cs"
  by (induction js arbitrary: cs) simp_all

lemma origin_inner_loop:
  assumes "i < length cs" "\<forall>j\<in>set js. i < j \<and> j < length cs"
  shows "map origin (inner_loop D big i js cs) = map origin cs"
  using assms
proof (induction js arbitrary: cs)
  case Nil
  then show ?case by simp
next
  case (Cons j js)
  let ?cs' = "if distance big (latlon (cs ! j)) < D then absorb i j cs else cs"
  have o: "map origin ?cs' = map origin cs"
    using Cons.prems by (simp add: origin_absorb)
  have "map origin (inner_loop D big i js ?cs') = map origin ?cs'"
    using Cons.prems by (intro Cons.IH) simp_all
  with o show ?case by simp
qed

lemma latlon_origin: "latlon c = (fst (origin c), fst (snd (origin c)))"
  by (simp add: latlon_def origin_def)

lemma proportion_inner_loop:
  assumes "i < length cs" "\<forall>j\<in>set js. i < j \<and> j < length cs" "distinct js" "m < length cs"
  shows "proportion (inner_loop D big i js cs ! m) =
     (if m = i then proportion (cs ! i)
                    + (\<Sum>j\<leftarrow>filter (\<lambda>j. distance big (latlon (cs ! j)) < D) js. proportion (cs ! j))
      else if m \<in> set js \<and> distance big (latlon (cs ! m)) < D then 0
      else proportion (cs ! m))"
  using assms
proof (induction js arbitrary: cs)
  case Nil
  then show ?case by simp
next
  case (Cons j js)
  let ?near = "\<lambda>cs j. distance big (latlon (cs ! j)) < D"
  let ?cs' = "if ?near cs j then absorb i j cs else cs"
  from Cons.prems have ij: "i \<noteq> j" "i < length cs" "j < length cs" "j \<notin> set js"
    and js: "\<forall>j\<in>set js. i < j \<and> j < length cs" "distinct js" by auto
  have ll: "latlon (?cs' ! x) = latlon (cs ! x)" if "x < length cs" for x
    using ij that by (simp add: latlon_absorb)
  have near: "?near ?cs' x = ?near cs x" if "x < length cs" for x
    using ll[OF that] by simp
  have pr: "proportion (?cs' ! x) = proportion (cs ! x)" if "x \<in> set js" for x
    using ij js that by (auto simp: absorb_nth)
  have flt: "filter (?near ?cs') js = filter (?near cs) js"
    using js near by (intro filter_cong) auto
  have sm: "(\<Sum>x\<leftarrow>filter (?near cs) js. proportion (?cs' ! x))
          = (\<Sum>x\<leftarrow>filter (?near cs) js. proportion (cs ! x))"
    using pr by (intro arg_cong[where f=sum_list] map_cong) auto
  have IH: "proportion (inner_loop D big i js ?cs' ! m) =
     (if m = i then proportion (?cs' ! i)
                    + (\<Sum>x\<leftarrow>filter (?near ?cs') js. proportion (?cs' ! x))
      else if m \<in> set js \<and> ?near ?cs' m then 0
      else proportion (?cs' ! m))"
    using Cons.prems js by (intro Cons.IH) simp_all
  show ?case
  proof (cases "?near cs j")
    case True
    then show ?thesis
      using IH flt sm ij near[OF Cons.prems(4)] Cons.prems(4)
      by (auto simp: absorb_nth)
  next
    case False
    then show ?thesis
      using IH flt sm ij Cons.prems(4) by auto
  qed
qed


lemma duration_inner_loop:
  assumes "i < length cs" "\<forall>j\<in>set js. i < j \<and> j < length cs" "distinct js" "m < length cs"
  shows "duration (inner_loop D big i js cs ! m) =
     (if m = i then duration (cs ! i)
                    + (\<Sum>j\<leftarrow>filter (\<lambda>j. distance big (latlon (cs ! j)) < D) js. duration (cs ! j))
      else duration (cs ! m))"
  using assms
proof (induction js arbitrary: cs)
  case Nil
  then show ?case by simp
next
  case (Cons j js)
  let ?near = "\<lambda>cs j. distance big (latlon (cs ! j)) < D"
  let ?cs' = "if ?near cs j then absorb i j cs else cs"
  from Cons.prems have ij: "i \<noteq> j" "i < length cs" "j < length cs" "j \<notin> set js"
    and js: "\<forall>j\<in>set js. i < j \<and> j < length cs" "distinct js" by auto
  have ll: "latlon (?cs' ! x) = latlon (cs ! x)" if "x < length cs" for x
    using ij that by (simp add: latlon_absorb)
  have near: "?near ?cs' x = ?near cs x" if "x < length cs" for x
    using ll[OF that] by simp
  have pr: "duration (?cs' ! x) = duration (cs ! x)" if "x \<in> set js" for x
    using ij js that by (auto simp: absorb_nth)
  have flt: "filter (?near ?cs') js = filter (?near cs) js"
    using js near by (intro filter_cong) auto
  have sm: "(\<Sum>x\<leftarrow>filter (?near cs) js. duration (?cs' ! x))
          = (\<Sum>x\<leftarrow>filter (?near cs) js. duration (cs ! x))"
    using pr by (intro arg_cong[where f=sum_list] map_cong) auto
  have IH: "duration (inner_loop D big i js ?cs' ! m) =
     (if m = i then duration (?cs' ! i)
                    + (\<Sum>x\<leftarrow>filter (?near ?cs') js. duration (?cs' ! x))
      else duration (?cs' ! m))"
    using Cons.prems js by (intro Cons.IH) simp_all
  show ?case
  proof (cases "?near cs j")
    case True
    then show ?thesis
      using IH flt sm ij Cons.prems(4) by (auto simp: absorb_nth)
  next
    case False
    then show ?thesis
      using IH flt sm ij Cons.prems(4) by auto
  qed
qed

lemma length_scan [simp]: "length (scan D i cs) = length cs"
  by (simp add: scan_def)

lemma origin_scan: "i < length cs \<Longrightarrow> map origin (scan D i cs) = map origin cs"
  by (simp add: scan_def origin_inner_loop)

lemma proportion_scan:
  assumes "i < length cs" "m < length cs"
  shows "proportion (scan D i cs ! m) =
     (if 0 < proportion (cs ! i)
      then (if m = i then proportion (cs ! i) + (\<Sum>j\<leftarrow>nbrs D cs i. proportion (cs ! j))
            else if m \<in> set (nbrs D cs i) then 0
            else proportion (cs ! m))
      else proportion (cs ! m))"
proof (cases "0 < proportion (cs ! i)")
  case True
  have "proportion (inner_loop D (latlon (cs ! i)) i [Suc i..<length cs] cs ! m) =
     (if m = i then proportion (cs ! i)
          + (\<Sum>j\<leftarrow>filter (\<lambda>j. distance (latlon (cs ! i)) (latlon (cs ! j)) < D) [Suc i..<length cs].
                proportion (cs ! j))
      else if m \<in> set [Suc i..<length cs] \<and> distance (latlon (cs ! i)) (latlon (cs ! m)) < D then 0
      else proportion (cs ! m))"
    using assms by (intro proportion_inner_loop) auto
  with True show ?thesis by (simp add: scan_def nbrs_def)
next
  case False
  then show ?thesis by (simp add: scan_def)
qed

lemma duration_scan:
  assumes "i < length cs" "m < length cs"
  shows "duration (scan D i cs ! m) =
     (if 0 < proportion (cs ! i) \<and> m = i
      then duration (cs ! i) + (\<Sum>j\<leftarrow>nbrs D cs i. duration (cs ! j))
      else duration (cs ! m))"
proof (cases "0 < proportion (cs ! i)")
  case True
  have "duration (inner_loop D (latlon (cs ! i)) i [Suc i..<length cs] cs ! m) =
     (if m = i then duration (cs ! i)
          + (\<Sum>j\<leftarrow>filter (\<lambda>j. distance (latlon (cs ! i)) (latlon (cs ! j)) < D) [Suc i..<length cs].
                duration (cs ! j))
      else duration (cs ! m))"
    using assms by (intro duration_inner_loop) auto
  with True show ?thesis by (simp add: scan_def nbrs_def)
next
  case False
  then show ?thesis by (simp add: scan_def)
qed

lemma outer_loop_append:
  "outer_loop D (xs @ ys) cs = outer_loop D ys (outer_loop D xs cs)"
  by (induction xs arbitrary: cs) simp_all

lemma scanned_0 [simp]: "scanned D 0 cs = cs"
  by (simp add: scanned_def)

lemma scanned_Suc: "scanned D (Suc i) cs = scan D i (scanned D i cs)"
  by (simp add: scanned_def outer_loop_append)

lemma merged_scanned: "merged D cs = scanned D (length cs - 1) cs"
  by (simp add: merged_def scanned_def)

lemma length_scanned [simp]: "length (scanned D t cs) = length cs"
  by (induction t) (simp_all add: scanned_Suc)

lemma origin_scanned: "t \<le> length cs \<Longrightarrow> map origin (scanned D t cs) = map origin cs"
  by (induction t) (simp_all add: scanned_Suc origin_scan)

lemma latlon_scanned:
  assumes "t \<le> length cs" "m < length cs"
  shows "latlon (scanned D t cs ! m) = latlon (cs ! m)"
proof -
  have "map origin (scanned D t cs) ! m = map origin cs ! m"
    using origin_scanned[OF assms(1)] by simp
  with assms(2) show ?thesis by (simp add: latlon_origin)
qed

lemma nbrs_scanned: "t \<le> length cs \<Longrightarrow> i < length cs \<Longrightarrow> nbrs D (scanned D t cs) i = nbrs D cs i"
  unfolding nbrs_def by (intro filter_cong) (auto simp: latlon_scanned)

subsection \<open>Conservation of proportion, re-ranking\<close>













lemma length_rerank [simp]: "length (rerank cs) = length cs"
  by (simp add: rerank_def)

lemma rerank_nth: "m < length cs \<Longrightarrow> rerank cs ! m = (cs ! m)\<lparr>rank := int m\<rparr>"
  by (simp add: rerank_def)


lemma origin_rerank: "map origin (rerank cs) = map origin cs"
  by (intro nth_equalityI) (simp_all add: rerank_nth origin_def)

lemma rank_rerank: "map rank (rerank cs) = map int [0..<length cs]"
  by (intro nth_equalityI) (simp_all add: rerank_nth)


subsection \<open>The list while the outer loop runs\<close>

lemma nbrs_later: "j \<in> set (nbrs D cs i) \<Longrightarrow> i < j \<and> j < length cs"
  by (auto simp: nbrs_def)

lemma nbrs_iff:
  "j \<in> set (nbrs D cs i) \<longleftrightarrow>
     i < j \<and> j < length cs \<and> distance (latlon (cs ! i)) (latlon (cs ! j)) < D"
  by (auto simp: nbrs_def)

lemma duration_scanned_later:
  assumes "t \<le> m" "m < length cs"
  shows "duration (scanned D t cs ! m) = duration (cs ! m)"
  using assms
proof (induction t)
  case 0
  then show ?case by simp
next
  case (Suc t)
  then have "duration (scan D t (scanned D t cs) ! m) = duration (scanned D t cs ! m)"
    by (subst duration_scan) auto
  with Suc show ?case by (simp add: scanned_Suc)
qed

lemma scanned_earlier:
  assumes "m < t" "t \<le> length cs"
  shows "duration (scanned D t cs ! m) = duration (scanned D (Suc m) cs ! m)
       \<and> proportion (scanned D t cs ! m) = proportion (scanned D (Suc m) cs ! m)"
  using assms
proof (induction t)
  case 0
  then show ?case by simp
next
  case (Suc t)
  show ?case
  proof (cases "m = t")
    case True
    then show ?thesis by simp
  next
    case False
    with Suc.prems have mt: "m < t" "t < length cs" by auto
    have d: "duration (scan D t (scanned D t cs) ! m) = duration (scanned D t cs ! m)"
      using mt by (subst duration_scan) auto
    have p: "proportion (scan D t (scanned D t cs) ! m) = proportion (scanned D t cs ! m)"
      using mt by (subst proportion_scan) (auto dest: nbrs_later)
    from Suc.IH mt d p show ?thesis by (simp add: scanned_Suc)
  qed
qed

lemma proportion_zero_stays:
  assumes "proportion (scanned D t cs ! k) = 0" "t \<le> t'" "t' \<le> k" "k < length cs"
  shows "proportion (scanned D t' cs ! k) = 0"
  using assms(2,3)
proof (induction t' rule: dec_induct)
  case base
  from assms(1) show ?case .
next
  case (step u)
  then have "u < length cs" "k < length cs" "k \<noteq> u" using assms(4) by auto
  then have "proportion (scan D u (scanned D u cs) ! k) = 0
           \<or> proportion (scan D u (scanned D u cs) ! k) = proportion (scanned D u cs ! k)"
    by (simp add: proportion_scan)
  with step show ?case by (auto simp: scanned_Suc)
qed

lemma proportion_untouched:
  assumes "t \<le> k" "k < length cs"
    and "\<forall>i<t. distance (latlon (cs ! i)) (latlon (cs ! k)) < D
              \<longrightarrow> \<not> 0 < proportion (scanned D i cs ! i)"
  shows "proportion (scanned D t cs ! k) = proportion (cs ! k)"
  using assms
proof (induction t)
  case 0
  then show ?case by simp
next
  case (Suc t)
  then have IH: "proportion (scanned D t cs ! k) = proportion (cs ! k)" by simp
  from Suc.prems have tk: "t < k" "t < length cs" "k < length cs" by auto
  have "\<not> (0 < proportion (scanned D t cs ! t) \<and> k \<in> set (nbrs D (scanned D t cs) t))"
    using Suc.prems(3) tk by (auto simp: nbrs_scanned nbrs_iff)
  then have "proportion (scan D t (scanned D t cs) ! k) = proportion (scanned D t cs ! k)"
    using tk by (subst proportion_scan) auto
  with IH show ?case by (simp add: scanned_Suc)
qed

lemma duration_after_scan:
  assumes "i < length cs - 1" "0 < proportion (scanned D i cs ! i)"
  shows "duration (merged D cs ! i) = duration (cs ! i) + (\<Sum>j\<leftarrow>nbrs D cs i. duration (cs ! j))"
proof -
  let ?S = "scanned D i cs"
  have i: "i < length cs" "Suc i \<le> length cs - 1" using assms(1) by auto
  have "duration (merged D cs ! i) = duration (scanned D (Suc i) cs ! i)"
    unfolding merged_scanned using i scanned_earlier[of i "length cs - 1" cs D]
    by (cases "Suc i = length cs - 1") auto
  also have "\<dots> = duration (?S ! i) + (\<Sum>j\<leftarrow>nbrs D ?S i. duration (?S ! j))"
    using i assms(2) by (simp add: scanned_Suc duration_scan)
  also have "nbrs D ?S i = nbrs D cs i"
    using i by (simp add: nbrs_scanned)
  also have "(\<Sum>j\<leftarrow>nbrs D cs i. duration (?S ! j)) = (\<Sum>j\<leftarrow>nbrs D cs i. duration (cs ! j))"
    by (intro arg_cong[where f=sum_list] map_cong refl duration_scanned_later)
       (auto dest: nbrs_later)
  also have "duration (?S ! i) = duration (cs ! i)"
    using i by (simp add: duration_scanned_later)
  finally show ?thesis .
qed

lemma proportion_after_scan:
  assumes "i < length cs - 1" "0 < proportion (scanned D i cs ! i)"
  shows "proportion (merged D cs ! i)
       = proportion (scanned D i cs ! i) + (\<Sum>j\<leftarrow>nbrs D cs i. proportion (scanned D i cs ! j))"
proof -
  let ?S = "scanned D i cs"
  have i: "i < length cs" "Suc i \<le> length cs - 1" using assms(1) by auto
  have "proportion (merged D cs ! i) = proportion (scanned D (Suc i) cs ! i)"
    unfolding merged_scanned using i scanned_earlier[of i "length cs - 1" cs D]
    by (cases "Suc i = length cs - 1") auto
  also have "\<dots> = proportion (?S ! i) + (\<Sum>j\<leftarrow>nbrs D ?S i. proportion (?S ! j))"
    using i assms(2) by (simp add: scanned_Suc proportion_scan)
  also have "nbrs D ?S i = nbrs D cs i"
    using i by (simp add: nbrs_scanned)
  finally show ?thesis .
qed

subsection \<open>The haversine distance at points of the equator\<close>

lemma distance_same: "distance c c = 0"
  by (simp add: distance_def atan2_def)

lemma distance_half_turn: "distance (0, 0) (0, 180) = 6378137 * pi"
  by (simp add: distance_def atan2_def)

lemma distance_quarter_turn: "distance (0, 0) (0, 90) = 6378137 * pi / 2"
proof -
  have "sin (pi / 4) * sin (pi / 4) = (sqrt 2 / 2)\<^sup>2"
    by (simp add: sin_45 power2_eq_square)
  then have s: "sin (pi / 4) * sin (pi / 4) = 1 / 2"
    by (simp add: power_divide)
  show ?thesis
    by (simp add: distance_def atan2_def s arctan_one)
qed

lemma distance_quarter_back: "distance (0, 180) (0, 90) = 6378137 * pi / 2"
proof -
  have "sin (pi / 4) * sin (pi / 4) = (sqrt 2 / 2)\<^sup>2"
    by (simp add: sin_45 power2_eq_square)
  then have s: "sin (pi / 4) * sin (pi / 4) = 1 / 2"
    by (simp add: power_divide)
  show ?thesis
    by (simp add: distance_def atan2_def s arctan_one)
qed

lemma half_turn_far: "\<not> distance (0, 0) (0, 180) < 12756274" "\<not> distance (0, 0) (0, 180) < 300"
  using pi_ge_two by (simp_all add: distance_half_turn)

lemma quarter_turn_near:
  "distance (0, 0) (0, 90) < 12756274" "distance (0, 180) (0, 90) < 12756274"
  using pi_less_4 by (simp_all add: distance_quarter_turn distance_quarter_back)

lemma upt_small: "[0..<2] = [0, 1]" "[1..<3] = [1, 2]" "[2..<3] = [2]" "[0..<3] = [0, 1, 2]"
     "[Suc 0..<3] = [1, 2]" "[0..<Suc 0] = [0]" "[Suc (Suc 0)..<3] = [2]"
  by code_simp+

lemma merged_late_pair:
  "merged 300 late_pair = [place 0 0 0 (2/5) 100, place 0 180 1 (3/5) 60, place 0 180 2 0 10]"
  by (simp add: merged_def late_pair_def upt_small scan_def place_def latlon_def absorb_def
      half_turn_far distance_same)

lemma remove_late_pair:
  "remove_clusters late_pair 300 = [place 0 0 0 (2/5) 100, place 0 180 1 (3/5) 60]"
  by (simp add: remove_clusters_def merged_late_pair rerank_def place_def upt_small)

lemma scanned_triangle:
  "scanned 12756274 (Suc 0) triangle = [place 0 0 0 (7/10) 107, place 0 180 1 (3/10) 50, place 0 90 2 0 7]"
  by (simp add: scanned_def triangle_def upt_small scan_def place_def latlon_def absorb_def
      half_turn_far quarter_turn_near)



lemma triangle_nth:
  "triangle ! 0 = place 0 0 0 (1/2) 100" "triangle ! Suc 0 = place 0 180 1 (3/10) 50"
  "triangle ! 2 = place 0 90 2 (1/5) 7" "length triangle = 3"
  by (simp_all add: triangle_def)

lemma nbrs_triangle: "nbrs 12756274 triangle 0 = [2]" "nbrs 12756274 triangle (Suc 0) = [2]"
  by (simp_all add: nbrs_def triangle_nth upt_small place_def latlon_def half_turn_far
      quarter_turn_near)


subsection \<open>The claims about the merge\<close>





text \<open>
  C8. The survivors of \<open>remove_clusters\<close> appear in the order of the input: the fields
  the merge never writes (coordinates, window, radius) of the output form a subsequence
  of those of the input. Their ranks are \<open>0, 1, 2, ...\<close> in that order. The list is not
  sorted again: in \<open>late_pair\<close> the second location absorbs the third and ends with
  proportion \<open>3/5\<close>, ranked below the first, whose proportion is \<open>2/5\<close>.
\<close>

theorem remove_clusters_order_and_rank:
  "subseq (map origin (remove_clusters cs D)) (map origin cs)
   \<and> map rank (remove_clusters cs D) = map int [0..<length (remove_clusters cs D)]"
proof -
  have "subseq (map origin (filter (\<lambda>cl. 0 < proportion cl) (merged D cs)))
               (map origin (merged D cs))"
    by (intro subseq_map subseq_filter_left)
  moreover have "map origin (merged D cs) = map origin cs"
    by (simp add: merged_scanned origin_scanned)
  ultimately show ?thesis
    by (simp add: remove_clusters_def origin_rerank rank_rerank)
qed

theorem remove_clusters_order_and_rank_witness:
  "subseq (map origin (remove_clusters late_pair 300)) (map origin late_pair)
   \<and> map rank (remove_clusters late_pair 300) = [0, 1]
   \<and> map proportion (remove_clusters late_pair 300) = [2/5, 3/5]"
  using remove_clusters_order_and_rank [of late_pair 300]
  by (simp add: remove_late_pair place_def upt_small)


text \<open>
  C10. Let location \<open>k\<close> lie within the merge distance of two earlier locations \<open>i1 < i2\<close>,
  each with positive proportion when the outer loop reaches it, \<open>i1\<close> being the first
  such location. Then the duration of \<open>k\<close> is never changed, it is a summand of the
  final duration of \<open>i1\<close> and of \<open>i2\<close>, and the proportion of \<open>k\<close> is a summand of the
  final proportion of \<open>i1\<close> only: when \<open>i2\<close> is reached the proportion of \<open>k\<close> is
  already \<open>0\<close>. The sums range over the other later locations within the merge
  distance.
\<close>

theorem absorbed_duration_counted_in_each:
  assumes "i1 < i2" "i2 < k" "k < length cs"
    and near1: "distance (latlon (cs ! i1)) (latlon (cs ! k)) < D"
    and near2: "distance (latlon (cs ! i2)) (latlon (cs ! k)) < D"
    and act1: "0 < proportion (scanned D i1 cs ! i1)"
    and act2: "0 < proportion (scanned D i2 cs ! i2)"
    and first: "\<forall>i<i1. distance (latlon (cs ! i)) (latlon (cs ! k)) < D
                  \<longrightarrow> \<not> 0 < proportion (scanned D i cs ! i)"
  shows "duration (merged D cs ! k) = duration (cs ! k)
       \<and> duration (merged D cs ! i1)
           = duration (cs ! i1) + duration (cs ! k)
             + (\<Sum>j\<leftarrow>remove1 k (nbrs D cs i1). duration (cs ! j))
       \<and> duration (merged D cs ! i2)
           = duration (cs ! i2) + duration (cs ! k)
             + (\<Sum>j\<leftarrow>remove1 k (nbrs D cs i2). duration (cs ! j))
       \<and> proportion (merged D cs ! i1)
           = proportion (scanned D i1 cs ! i1) + proportion (cs ! k)
             + (\<Sum>j\<leftarrow>remove1 k (nbrs D cs i1). proportion (scanned D i1 cs ! j))
       \<and> proportion (merged D cs ! i2)
           = proportion (scanned D i2 cs ! i2)
             + (\<Sum>j\<leftarrow>remove1 k (nbrs D cs i2). proportion (scanned D i2 cs ! j))
       \<and> proportion (merged D cs ! k) = 0"
proof -
  let ?n = "length cs"
  have lt: "i1 < ?n - 1" "i2 < ?n - 1" "i1 < ?n" "i2 < ?n" "i1 < k"
    using assms(1-3) by auto
  have k1: "k \<in> set (nbrs D cs i1)" and k2: "k \<in> set (nbrs D cs i2)"
    using assms(1-3) near1 near2 by (auto simp: nbrs_iff)
  \<comment> \<open>the absorbed location is cleared by the first scan and stays cleared\<close>
  have z1: "proportion (scanned D (Suc i1) cs ! k) = 0"
    using lt assms(3) act1 k1 by (simp add: scanned_Suc proportion_scan nbrs_scanned)
  have z2: "proportion (scanned D i2 cs ! k) = 0"
    using assms(1-3) by (intro proportion_zero_stays[OF z1]) auto
  have zk: "proportion (scanned D k cs ! k) = 0"
    using assms(1-3) by (intro proportion_zero_stays[OF z1]) auto
  have pk: "proportion (merged D cs ! k) = 0"
  proof (cases "k = ?n - 1")
    case True
    with zk show ?thesis by (simp add: merged_scanned)
  next
    case False
    with assms(3) have "k < ?n - 1" by auto
    then have "proportion (merged D cs ! k) = proportion (scanned D (Suc k) cs ! k)"
      unfolding merged_scanned using scanned_earlier[of k "?n - 1" cs D]
      by (cases "Suc k = ?n - 1") auto
    also have "\<dots> = 0"
      using zk assms(3) by (simp add: scanned_Suc proportion_scan)
    finally show ?thesis .
  qed
  have dk: "duration (merged D cs ! k) = duration (cs ! k)"
  proof (cases "k = ?n - 1")
    case True
    with assms(3) show ?thesis by (simp add: merged_scanned duration_scanned_later)
  next
    case False
    with assms(3) have "k < ?n - 1" by auto
    then have "duration (merged D cs ! k) = duration (scanned D (Suc k) cs ! k)"
      unfolding merged_scanned using scanned_earlier[of k "?n - 1" cs D]
      by (cases "Suc k = ?n - 1") auto
    also have "\<dots> = duration (scanned D k cs ! k)"
      using zk assms(3) by (simp add: scanned_Suc duration_scan)
    also have "\<dots> = duration (cs ! k)"
      using assms(3) by (simp add: duration_scanned_later)
    finally show ?thesis .
  qed
  have d1: "duration (merged D cs ! i1)
      = duration (cs ! i1) + duration (cs ! k) + (\<Sum>j\<leftarrow>remove1 k (nbrs D cs i1). duration (cs ! j))"
    using duration_after_scan[OF lt(1) act1] sum_list_map_remove1[OF k1, of "\<lambda>j. duration (cs ! j)"]
    by simp
  have d2: "duration (merged D cs ! i2)
      = duration (cs ! i2) + duration (cs ! k) + (\<Sum>j\<leftarrow>remove1 k (nbrs D cs i2). duration (cs ! j))"
    using duration_after_scan[OF lt(2) act2] sum_list_map_remove1[OF k2, of "\<lambda>j. duration (cs ! j)"]
    by simp
  have u1: "proportion (scanned D i1 cs ! k) = proportion (cs ! k)"
    using lt assms(3) first by (intro proportion_untouched) auto
  have p1: "proportion (merged D cs ! i1)
      = proportion (scanned D i1 cs ! i1) + proportion (cs ! k)
        + (\<Sum>j\<leftarrow>remove1 k (nbrs D cs i1). proportion (scanned D i1 cs ! j))"
    using proportion_after_scan[OF lt(1) act1]
      sum_list_map_remove1[OF k1, of "\<lambda>j. proportion (scanned D i1 cs ! j)"] u1
    by simp
  have p2: "proportion (merged D cs ! i2)
      = proportion (scanned D i2 cs ! i2)
        + (\<Sum>j\<leftarrow>remove1 k (nbrs D cs i2). proportion (scanned D i2 cs ! j))"
    using proportion_after_scan[OF lt(2) act2]
      sum_list_map_remove1[OF k2, of "\<lambda>j. proportion (scanned D i2 cs ! j)"] z2
    by simp
  from dk d1 d2 p1 p2 pk show ?thesis by blast
qed


theorem absorbed_duration_counted_in_each_witness:
  "distance (latlon (triangle ! 0)) (latlon (triangle ! 2)) < 12756274
   \<and> distance (latlon (triangle ! 1)) (latlon (triangle ! 2)) < 12756274
   \<and> 0 < proportion (scanned 12756274 0 triangle ! 0)
   \<and> 0 < proportion (scanned 12756274 1 triangle ! 1)
   \<and> duration (merged 12756274 triangle ! 2) = 7
   \<and> duration (merged 12756274 triangle ! 0) = 100 + 7
   \<and> duration (merged 12756274 triangle ! 1) = 50 + 7
   \<and> proportion (merged 12756274 triangle ! 0) = 1/2 + 1/5
   \<and> proportion (merged 12756274 triangle ! 1) = 3/10
   \<and> proportion (merged 12756274 triangle ! 2) = 0"
proof -
  let ?D = "12756274 :: real"
  have n1: "distance (latlon (triangle ! 0)) (latlon (triangle ! 2)) < ?D"
    and n2: "distance (latlon (triangle ! 1)) (latlon (triangle ! 2)) < ?D"
    by (simp_all add: triangle_nth place_def latlon_def quarter_turn_near)
  have a1: "0 < proportion (scanned ?D 0 triangle ! 0)"
    by (simp add: triangle_nth place_def)
  have a2: "0 < proportion (scanned ?D 1 triangle ! 1)"
    by (simp add: scanned_triangle place_def)
  have f: "\<forall>i<0::nat. distance (latlon (triangle ! i)) (latlon (triangle ! 2)) < ?D
             \<longrightarrow> \<not> 0 < proportion (scanned ?D i triangle ! i)"
    by simp
  have o: "(0::nat) < 1" "(1::nat) < 2" "2 < length triangle"
    by (simp_all add: triangle_nth)
  from absorbed_duration_counted_in_each [OF o n1 n2 a1 a2 f] n1 n2 a1 a2
  show ?thesis
    by (simp add: nbrs_triangle triangle_nth scanned_triangle place_def)
qed

section \<open>Properties of the incremental reducer and the density extractor\<close>

subsection \<open>Chunks\<close>







lemma watermark_chunk_step [simp]: "watermark (chunk_step sv eps e d rd) = e"
  by (simp add: chunk_step_def Let_def)



subsection \<open>Repeated timestamps, the window fetch\<close>

lemma shift_ne_None_nonempty: "rows \<noteq> [] \<Longrightarrow> shift_ne None rows \<noteq> []"
  by (cases rows) simp_all

lemma shift_ne_None_empty_iff: "shift_ne None rows = [] \<longleftrightarrow> rows = []"
  by (cases rows) simp_all

lemma dedup_frame_empty_iff:
  "dedup_frame rows = Inl KeyError \<longleftrightarrow> rows = []"
  by (simp add: dedup_frame_def)


subsection \<open>The nearest summary point\<close>

lemma argmin_from_props:
  assumes "b < i"
  shows "(argmin_from b v i xs = b \<and> (\<forall>x\<in>set xs. v \<le> x))
       \<or> (i \<le> argmin_from b v i xs \<and> argmin_from b v i xs < i + length xs
          \<and> xs ! (argmin_from b v i xs - i) < v
          \<and> (\<forall>x\<in>set xs. xs ! (argmin_from b v i xs - i) \<le> x))"
  using assms
proof (induction xs arbitrary: b v i)
  case Nil
  then show ?case by simp
next
  case (Cons x xs)
  show ?case
  proof (cases "x < v")
    case True
    from Cons.IH[of i "Suc i" x] have
      "(argmin_from i x (Suc i) xs = i \<and> (\<forall>y\<in>set xs. x \<le> y))
       \<or> (Suc i \<le> argmin_from i x (Suc i) xs \<and> argmin_from i x (Suc i) xs < Suc i + length xs
          \<and> xs ! (argmin_from i x (Suc i) xs - Suc i) < x
          \<and> (\<forall>y\<in>set xs. xs ! (argmin_from i x (Suc i) xs - Suc i) \<le> y))"
      by simp
    then show ?thesis
    proof
      assume "argmin_from i x (Suc i) xs = i \<and> (\<forall>y\<in>set xs. x \<le> y)"
      with True show ?thesis by simp
    next
      assume a: "Suc i \<le> argmin_from i x (Suc i) xs \<and> argmin_from i x (Suc i) xs < Suc i + length xs
          \<and> xs ! (argmin_from i x (Suc i) xs - Suc i) < x
          \<and> (\<forall>y\<in>set xs. xs ! (argmin_from i x (Suc i) xs - Suc i) \<le> y)"
      let ?r = "argmin_from i x (Suc i) xs"
      from a have "?r - i = Suc (?r - Suc i)" by arith
      with a True show ?thesis by auto
    qed
  next
    case False
    from Cons.prems have "b < Suc i" by simp
    from Cons.IH[OF this, of v] have
      "(argmin_from b v (Suc i) xs = b \<and> (\<forall>y\<in>set xs. v \<le> y))
       \<or> (Suc i \<le> argmin_from b v (Suc i) xs \<and> argmin_from b v (Suc i) xs < Suc i + length xs
          \<and> xs ! (argmin_from b v (Suc i) xs - Suc i) < v
          \<and> (\<forall>y\<in>set xs. xs ! (argmin_from b v (Suc i) xs - Suc i) \<le> y))" .
    then show ?thesis
    proof
      assume "argmin_from b v (Suc i) xs = b \<and> (\<forall>y\<in>set xs. v \<le> y)"
      with False show ?thesis by auto
    next
      assume a: "Suc i \<le> argmin_from b v (Suc i) xs \<and> argmin_from b v (Suc i) xs < Suc i + length xs
          \<and> xs ! (argmin_from b v (Suc i) xs - Suc i) < v
          \<and> (\<forall>y\<in>set xs. xs ! (argmin_from b v (Suc i) xs - Suc i) \<le> y)"
      let ?r = "argmin_from b v (Suc i) xs"
      from a have "?r - i = Suc (?r - Suc i)" by arith
      with a False show ?thesis by auto
    qed
  qed
qed

lemma argmin_least:
  assumes "xs \<noteq> []"
  shows "argmin xs < length xs \<and> (\<forall>x\<in>set xs. xs ! argmin xs \<le> x)"
proof -
  from assms obtain y ys where xs: "xs = y # ys" by (cases xs) auto
  let ?r = "argmin_from 0 y 1 ys"
  from argmin_from_props[of 0 1 y ys] have
    "(?r = 0 \<and> (\<forall>x\<in>set ys. y \<le> x))
     \<or> (1 \<le> ?r \<and> ?r < 1 + length ys \<and> ys ! (?r - 1) < y \<and> (\<forall>x\<in>set ys. ys ! (?r - 1) \<le> x))"
    by simp
  then show ?thesis
  proof
    assume "?r = 0 \<and> (\<forall>x\<in>set ys. y \<le> x)"
    then show ?thesis by (simp add: xs argmin_def)
  next
    assume a: "1 \<le> ?r \<and> ?r < 1 + length ys \<and> ys ! (?r - 1) < y \<and> (\<forall>x\<in>set ys. ys ! (?r - 1) \<le> x)"
    then have "(y # ys) ! ?r = ys ! (?r - 1)" by (cases ?r) auto
    with a show ?thesis by (auto simp: xs argmin_def)
  qed
qed

lemma label_step_cluster:
  fixes d :: "reading list" and props :: "int list" and l :: int
  assumes "l \<noteq> - 1" "dat \<noteq> []"
  defines "rows \<equiv> filter (\<lambda>i. props ! i = l) [0..<length d]"
  defines "c \<equiv> (mean (map (\<lambda>i. latitude (d ! i)) rows), mean (map (\<lambda>i. longitude (d ! i)) rows))"
  defines "i \<equiv> argmin (map (\<lambda>loc. euclid (latlon loc) c) dat)"
  shows "i < length dat
       \<and> (\<forall>j<length dat. euclid (latlon (dat ! i)) c \<le> euclid (latlon (dat ! j)) c)
       \<and> label_step d props (dat, pts) l =
           (if euclid (latlon (dat ! i)) c < 20
            then (dat[i := (dat ! i)\<lparr>count := count (dat ! i) + int (length rows)\<rparr>], pts)
            else (dat, pts @ [\<lparr>latitude = fst c, longitude = snd c,
                                count = int (length rows)\<rparr>]))"
proof -
  let ?ds = "map (\<lambda>loc. euclid (latlon loc) c) dat"
  have ne: "?ds \<noteq> []" using assms(2) by simp
  from argmin_least[OF ne] have "argmin ?ds < length ?ds" and "\<forall>x\<in>set ?ds. ?ds ! argmin ?ds \<le> x"
    by blast+
  then have i: "i < length dat" and le: "\<forall>x\<in>set ?ds. ?ds ! i \<le> x"
    unfolding i_def by (simp, blast)
  have near: "euclid (latlon (dat ! i)) c \<le> euclid (latlon (dat ! j)) c" if "j < length dat" for j
  proof -
    from that have "?ds ! j \<in> set ?ds" by (intro nth_mem) simp
    with le have "?ds ! i \<le> ?ds ! j" by blast
    with i that show ?thesis by simp
  qed
  have step: "label_step d props (dat, pts) l =
           (if euclid (latlon (dat ! i)) c < 20
            then (dat[i := (dat ! i)\<lparr>count := count (dat ! i) + int (length rows)\<rparr>], pts)
            else (dat, pts @ [\<lparr>latitude = fst c, longitude = snd c,
                                count = int (length rows)\<rparr>]))"
    using assms(1,2) by (simp add: label_step_def Let_def i_def c_def rows_def)
  from i near step show ?thesis by blast
qed




subsection \<open>The candidate cluster counts\<close>

lemma set_K_clusters: "k \<in> set (K_clusters k_max n) \<longleftrightarrow> 1 \<le> k \<and> int k < k_max \<and> k < n"
  by (auto simp: K_clusters_def)

subsection \<open>The example runs\<close>


lemma length_home: "length home_fixes = 2"
  by (simp add: home_fixes_def)


lemma argmin_single: "argmin [x] = 0"
  by (simp add: argmin_def)





lemma shift_home: "shift_ne None home_fixes = home_fixes"
  by (simp add: home_fixes_def fix_at_def)

lemma home_nonempty: "home_fixes \<noteq> []"
  by (simp add: home_fixes_def)


subsection \<open>The claims about the reducer and the density extractor\<close>







text \<open>
  C7, at \<open>k_max = 10\<close> and a cloud of \<open>100\<close> points: the candidates are \<open>1, ..., 9\<close>,
  and \<open>10\<close> is not among them although \<open>10 \<le> min(k_max, pointcount - 1)\<close>. Lemma
  \<open>set_K_clusters\<close> gives the candidates in general: \<open>1 \<le> k < min(k_max, pointcount)\<close>.
\<close>

theorem K_clusters_stops_below_k_max:
  "K_clusters 10 100 = [1, 2, 3, 4, 5, 6, 7, 8, 9] \<and> (10::nat) \<le> min 10 (100 - 1)"
  by (simp add: K_clusters_def upt_rec)

text \<open>
  C9, as the code behaves. When the watermark read lies before the requested end and
  no row remains for the reduction after repeated timestamps are dropped (which
  happens only when the GPS source returned no row), the call raises \<open>KeyError\<close>: the
  frame of an empty list has no \<open>timestamp\<close> column, and the column is read before the
  length is tested. It does not return the empty list.
\<close>

theorem no_new_readings_raises:
  assumes "watermark (read_state sv kw) < kw_end kw"
    and "gps sv (kw\<lparr>kw_start := watermark (read_state sv kw)\<rparr>) = Inr rows"
    and "shift_ne None rows = []"
  shows "significant_locations_kmeans sv k_max eps kw = ([], Inl KeyError)"
  using assms
  by (simp add: significant_locations_kmeans_def Let_def shift_ne_None_empty_iff dedup_frame_def)

theorem no_new_readings_raises_witness:
  "watermark (read_state no_news day) < kw_end day
   \<and> data (read_state no_news day) = [\<lparr>latitude = 0, longitude = 0, count = 2\<rparr>]
   \<and> gps no_news day = Inr home_fixes
   \<and> gps no_news (day\<lparr>kw_start := watermark (read_state no_news day)\<rparr>) = Inr []
   \<and> significant_locations_kmeans no_news 10 (1/100000) day = ([], Inl KeyError)"
proof -
  have r: "read_state no_news day
             = \<lparr>watermark = 50000000, data = [\<lparr>latitude = 0, longitude = 0, count = 2\<rparr>]\<rparr>"
    by (simp add: read_state_def no_news_def lab_services_def)
  have k: "kw_end day = 86400000" "kw_start day = 0" by (simp_all add: day_def)
  have w: "watermark (read_state no_news day) < kw_end day"
    by (simp add: r k)
  have f: "gps no_news q = (if kw_start q = 0 then Inr home_fixes else Inr [])" for q
    by (simp add: no_news_def lab_services_def)
  have g: "gps no_news (day\<lparr>kw_start := watermark (read_state no_news day)\<rparr>) = Inr []"
    by (simp add: r f)
  have h: "gps no_news day = Inr home_fixes"
    by (simp add: f k)
  have n: "shift_ne None [] = []" by simp
  from no_new_readings_raises [OF w g n, of 10 "1/100000"] r w g h
  show ?thesis by simp
qed

section \<open>Properties of the radius\<close>

text \<open>The radius of each record is the radius expression of its extractor.\<close>

lemma kmeans_records_radius:
  "kmeans_records kw newdf props coords i centers = Inr recs \<Longrightarrow>
     map radius recs
       = map2 (\<lambda>j center. kmeans_radius props coords (int j) center)
           [i..<i + length centers] centers"
proof (induction centers arbitrary: i recs)
  case Nil
  then show ?case by simp
next
  case (Cons center centers)
  from Cons.prems obtain dur rest where
    rest: "kmeans_records kw newdf props coords (Suc i) centers = Inr rest"
    and recs: "radius (hd recs) = kmeans_radius props coords (int i) center" "tl recs = rest"
      "recs \<noteq> []"
    by (auto simp: Let_def split: sum.splits)
  have u: "[i..<i + length (center # centers)] = i # [Suc i..<Suc i + length centers]"
    by (simp add: upt_conv_Cons del: upt_Suc)
  from Cons.IH[OF rest] recs show ?case
    unfolding u by (cases recs) (simp_all del: upt_Suc)
qed

lemma mode_records_radius:
  "mode_records kw df df_clusters labels i centers = Inr recs \<Longrightarrow>
     map radius recs
       = map2 (\<lambda>j center. mode_radius df labels (int j) center)
           [i..<i + length centers] centers"
proof (induction centers arbitrary: i recs)
  case Nil
  then show ?case by simp
next
  case (Cons center centers)
  from Cons.prems obtain dur rest where
    rest: "mode_records kw df df_clusters labels (Suc i) centers = Inr rest"
    and recs: "radius (hd recs) = mode_radius df labels (int i) center" "tl recs = rest"
      "recs \<noteq> []"
    by (auto simp: Let_def split: sum.splits)
  have u: "[i..<i + length (center # centers)] = i # [Suc i..<Suc i + length centers]"
    by (simp add: upt_conv_Cons del: upt_Suc)
  from Cons.IH[OF rest] recs show ?case
    unfolding u by (cases recs) (simp_all del: upt_Suc)
qed

lemma kmeans_radius_absent_iff:
  "kmeans_radius props coords idx center = None \<longleftrightarrow> size_eq props idx = 0"
  by (simp add: kmeans_radius_def)

lemma mode_radius_absent_iff:
  "mode_radius df labels idx center = None \<longleftrightarrow> (\<forall>l\<in>set labels. l = idx)"
  by (auto simp: mode_radius_def filter_empty_conv)

lemma round3_zero: "round3 0 = 0"
  by (simp add: round3_def)

lemma rounded_home:
  "map (\<lambda>r. (round3 (latitude r), round3 (longitude r))) home_fixes = [(0, 0), (0, 0)]"
  by (simp add: home_fixes_def fix_at_def round3_zero)

lemma value_counts_home: "value_counts [(0, 0), (0, 0)] = [((0, 0), 2)]"
  by (simp add: value_counts_def sort_by_def)

lemma py_int_small: "py_int (1/100 * real (length home_fixes)) = 0"
  by (simp add: py_int_def length_home)

lemma labels_home:
  "while_clusters [(0, 0), (0, 0)] 0 (length home_fixes) 0 [((0, 0), 2)]
     (replicate (length home_fixes) (- 1), [])
   = ([0, 0], [(0, 0)])"
  by (simp add: length_home assign_def numeral_2_eq_2)

lemma duration_home_mode:
  "location_duration
     (map2 (\<lambda>r (p, l). \<lparr>latitude = fst p, longitude = snd p, timestamp = timestamp r, cluster = l\<rparr>)
        home_fixes [((0, 0), 0), ((0, 0), 0)]) 0 = Inr (- 1000)"
  by (simp add: home_fixes_def fix_at_def location_duration_def arr_ext_def
      neq_shift_def flatnonzero_def idx_list_def series_get_def)

lemma remove_single: "remove_clusters [c] D = [c\<lparr>rank := 0\<rparr>] \<or> remove_clusters [c] D = []"
  by (simp add: remove_clusters_def merged_def rerank_def)

text \<open>
  C3, at a window whose fixes all round to one place. The frequency extractor finds
  one location and labels both fixes with it (its proportion is \<open>1\<close>), and the radius
  of the record is \<open>None\<close>: the guard of the radius counts the rows labelled otherwise,
  and there is none. In the density extractor the radius is \<open>None\<close> exactly when no
  row is assigned (\<open>kmeans_radius_absent_iff\<close>), and otherwise the mean of
  \<open>euclid\<close> times \<open>1000\<close> over the assigned rows; in the frequency extractor it is
  \<open>None\<close> exactly when every row is assigned to the location
  (\<open>mode_radius_absent_iff\<close>).
\<close>

theorem mode_radius_absent_with_all_assigned:
  "gps store_down day = Inr home_fixes
   \<and> significant_locations_mode store_down (- 1) (1/100) 300 day
       = Inr [\<lparr>latitude = 0, longitude = 0, window_start = 0, window_end = 86400000,
               rank = 0, radius = None, proportion = 1, duration = - 1000\<rparr>]"
proof -
  have g: "gps store_down k = Inr home_fixes" for k
    by (simp add: store_down_def lab_services_def)
  have m: "mode_records day home_fixes
      (map2 (\<lambda>r (p, l). \<lparr>latitude = fst p, longitude = snd p, timestamp = timestamp r, cluster = l\<rparr>)
        home_fixes [((0, 0), 0), ((0, 0), 0)]) [0, 0] 0 [(0, 0)]
    = Inr [\<lparr>latitude = 0, longitude = 0, window_start = 0, window_end = 86400000,
               rank = 0, radius = None, proportion = 1, duration = - 1000\<rparr>]"
    by (simp add: duration_home_mode mode_radius_def size_eq_def day_def)
  have r: "remove_clusters [\<lparr>latitude = 0, longitude = 0, window_start = 0, window_end = 86400000,
               rank = 0, radius = None, proportion = 1, duration = - 1000\<rparr>] 300
      = [\<lparr>latitude = 0, longitude = 0, window_start = 0, window_end = 86400000,
               rank = 0, radius = None, proportion = 1, duration = - 1000\<rparr>]"
    by (simp add: remove_clusters_def merged_def rerank_def)
  have f: "significant_locations_mode store_down (- 1) (1/100) 300 day
      = (case mode_records day home_fixes
                (map2 (\<lambda>r (p, l). \<lparr>latitude = fst p, longitude = snd p,
                                       timestamp = timestamp r, cluster = l\<rparr>)
                   home_fixes (zip [(0, 0), (0, 0)] [0, 0])) [0, 0] 0 [(0, 0)] of
           Inl e \<Rightarrow> Inl e
         | Inr clusters \<Rightarrow> Inr (remove_clusters clusters 300))"
    unfolding significant_locations_mode_def Let_def g
    by (simp only: sum.case shift_home rounded_home value_counts_home py_int_small labels_home)
       (simp add: home_nonempty)
  show ?thesis
    by (simp add: g f m r del: mode_records.simps)
qed

end
